theory Spec2Isabelle
  imports
    Complex_Main
    "HOL-Library.Char_ord"
    "HOL-Library.List_Lexorder"
    "HOL-Library.Product_Lexorder"
    "HOL-Library.Log_Nat"
begin

section \<open>The uploaded table\<close>

text \<open>
  \<^verbatim>\<open>UI.py\<close> reads one CSV file into a pandas data frame \<^verbatim>\<open>df\<close> and computes
  everything it shows from that frame. A row of the frame is a vote record with the
  columns the script reads by name. Cells are kept as the text of the CSV; the flag
  column \<^verbatim>\<open>is_suspicious\<close> is a boolean, which is what the comparison
  \<^verbatim>\<open>df['is_suspicious'] == True\<close> selects on. What \<^verbatim>\<open>read_csv\<close> makes of the
  text of a cell (a string, a number, or NaN for a missing cell) is modelled where the
  script groups, sorts or joins cell values.
  The column \<^verbatim>\<open>fraud_type\<close> is free text in the code (it is only ever compared
  with string literals), so it is a string here and not an enumeration.
\<close>

record vote_record =
  voter_id :: string
  claimed_voter_id :: string
  registered_constituency :: string
  voting_constituency :: string
  image_path :: string
  fraud_type :: string
  is_suspicious :: bool

type_synonym dataframe = "vote_record list"

text \<open>
  \<^verbatim>\<open>Series.unique()\<close>: the distinct values in order of first appearance. pandas
  walks the column with a hash table of the values seen so far.
\<close>

fun unique_from :: "'a list \<Rightarrow> 'a list \<Rightarrow> 'a list" where
  "unique_from seen [] = []"
| "unique_from seen (x # xs) =
     (if x \<in> set seen then unique_from seen xs else x # unique_from (x # seen) xs)"

definition unique :: "'a list \<Rightarrow> 'a list" where
  "unique xs = unique_from [] xs"

text \<open>\<^verbatim>\<open>sep.join(parts)\<close> of Python.\<close>

fun join :: "string \<Rightarrow> string list \<Rightarrow> string" where
  "join sep [] = []"
| "join sep [x] = x"
| "join sep (x # y # ys) = x @ sep @ join sep (y # ys)"

section \<open>Categorization (lines 43--48, 80--85)\<close>

text \<open>
  \<^verbatim>\<open>
  fraud_categories = {
      "Same Constituency Identity Theft": df[df['fraud_type'] == 'same_constituency_identity_theft']['voter_id'].unique().tolist(),
      "Cross-Constituency Voting": df[df['fraud_type'] == 'cross_constituency_voting']['voter_id'].unique().tolist(),
      "Double Voting": df[df['fraud_type'] == 'double_voting']['voter_id'].unique().tolist(),
      "All Suspicious Voters": df[df['is_suspicious'] == True]['voter_id'].unique().tolist()
  }
  \<close>
  A Python dictionary keeps its keys in insertion order and the script later lists the
  keys, so the dictionary is an association list.
\<close>

definition identity_theft_voters :: "dataframe \<Rightarrow> string list" where
  "identity_theft_voters df =
     unique (map voter_id (filter (\<lambda>r. fraud_type r = ''same_constituency_identity_theft'') df))"

definition cross_constituency_voters :: "dataframe \<Rightarrow> string list" where
  "cross_constituency_voters df =
     unique (map voter_id (filter (\<lambda>r. fraud_type r = ''cross_constituency_voting'') df))"

definition double_voting_voters :: "dataframe \<Rightarrow> string list" where
  "double_voting_voters df =
     unique (map voter_id (filter (\<lambda>r. fraud_type r = ''double_voting'') df))"

definition all_suspicious_voters :: "dataframe \<Rightarrow> string list" where
  "all_suspicious_voters df =
     unique (map voter_id (filter (\<lambda>r. is_suspicious r = True) df))"

definition fraud_categories :: "dataframe \<Rightarrow> (string \<times> string list) list" where
  "fraud_categories df =
     [(''Same Constituency Identity Theft'', identity_theft_voters df),
      (''Cross-Constituency Voting'', cross_constituency_voters df),
      (''Double Voting'', double_voting_voters df),
      (''All Suspicious Voters'', all_suspicious_voters df)]"

text \<open>
  \<^verbatim>\<open>
  active_categories = {k: v for k, v in fraud_categories.items() if len(v) > 0}
  suspicious_type = st.selectbox("Select a suspicious activity type", list(active_categories.keys()))
  \<close>
\<close>

definition active_categories :: "dataframe \<Rightarrow> (string \<times> string list) list" where
  "active_categories df = filter (\<lambda>(k, v). length v > 0) (fraud_categories df)"

definition selectable_categories :: "dataframe \<Rightarrow> string list" where
  "selectable_categories df = map fst (active_categories df)"

text \<open>The three fraud labels that have a category of their own.\<close>

definition known_fraud_labels :: "string list" where
  "known_fraud_labels =
     [''same_constituency_identity_theft'', ''cross_constituency_voting'', ''double_voting'']"

section \<open>Reason synthesis (lines 110--119)\<close>

text \<open>
  \<^verbatim>\<open>
  reasons = []
  if row['fraud_type'] == 'same_constituency_identity_theft':
      reasons.append(f"Identity theft: Claims to be {row['claimed_voter_id']}")
  if row['fraud_type'] == 'cross_constituency_voting':
      reasons.append(f"Voting in wrong constituency: Registered in {row['registered_constituency']}, voting in {row['voting_constituency']}")
  if row['fraud_type'] == 'double_voting':
      reasons.append("Multiple voting attempts detected")
  display_df.at[idx, 'fraud_reason'] = "; ".join(reasons) if reasons else "Legitimate"
  \<close>
  The list \<^verbatim>\<open>reasons\<close> is threaded through the three statements.
\<close>

definition identity_theft_clause :: "vote_record \<Rightarrow> string" where
  "identity_theft_clause row = ''Identity theft: Claims to be '' @ claimed_voter_id row"

definition cross_constituency_clause :: "vote_record \<Rightarrow> string" where
  "cross_constituency_clause row =
     ''Voting in wrong constituency: Registered in '' @ registered_constituency row
       @ '', voting in '' @ voting_constituency row"

definition double_voting_clause :: string where
  "double_voting_clause = ''Multiple voting attempts detected''"

definition reasons_of :: "vote_record \<Rightarrow> string list" where
  "reasons_of row =
     (let reasons0 = [];
          reasons1 = (if fraud_type row = ''same_constituency_identity_theft''
                      then reasons0 @ [identity_theft_clause row] else reasons0);
          reasons2 = (if fraud_type row = ''cross_constituency_voting''
                      then reasons1 @ [cross_constituency_clause row] else reasons1);
          reasons3 = (if fraud_type row = ''double_voting''
                      then reasons2 @ [double_voting_clause] else reasons2)
      in reasons3)"

definition fraud_reason :: "vote_record \<Rightarrow> string" where
  "fraud_reason row =
     (let reasons = reasons_of row
      in if reasons \<noteq> [] then join ''; '' reasons else ''Legitimate'')"

text \<open>
  The loop \<^verbatim>\<open>for idx, row in display_df.iterrows()\<close> over the selected voter's rows:
  the new column starts as the empty string in every row
  (\<^verbatim>\<open>display_df['fraud_reason'] = ""\<close>) and the body stores one cell per iteration.
  Rows are addressed by position here; the frame's index labels are unique, since
  \<^verbatim>\<open>read_csv\<close> numbers the rows.
\<close>

fun fraud_reason_loop :: "nat \<Rightarrow> vote_record list \<Rightarrow> string list \<Rightarrow> string list" where
  "fraud_reason_loop idx [] col = col"
| "fraud_reason_loop idx (row # rows) col =
     fraud_reason_loop (Suc idx) rows (col[idx := fraud_reason row])"

definition fraud_reason_column :: "vote_record list \<Rightarrow> string list" where
  "fraud_reason_column display_df =
     fraud_reason_loop 0 display_df (replicate (length display_df) '''')"

text \<open>
  The contract of section 4.3 of the specification, in its words: the clauses that
  apply, in the order identity theft, cross-constituency, double voting, joined with
  \<^verbatim>\<open>"; "\<close>; the literal \<^verbatim>\<open>Legitimate\<close> when none applies.
\<close>

definition spec_clauses :: "vote_record \<Rightarrow> string list" where
  "spec_clauses row =
     map snd (filter fst
       [(fraud_type row = ''same_constituency_identity_theft'', identity_theft_clause row),
        (fraud_type row = ''cross_constituency_voting'', cross_constituency_clause row),
        (fraud_type row = ''double_voting'', double_voting_clause)])"

definition spec_reason :: "vote_record \<Rightarrow> string" where
  "spec_reason row =
     (if spec_clauses row = [] then ''Legitimate'' else join ''; '' (spec_clauses row))"

section \<open>Python values the script computes with\<close>

text \<open>The exceptions that can leave a statement of the script.\<close>

datatype py_exception = ZeroDivisionError | ValueError | TypeError | ImageLoadError string

text \<open>\<^verbatim>\<open>str(n)\<close> of a non-negative integer: its decimal digits.\<close>

definition digit_char :: "nat \<Rightarrow> char" where
  "digit_char d = char_of (48 + d)"

fun string_of_nat :: "nat \<Rightarrow> string" where
  "string_of_nat n =
     (if n < 10 then [digit_char n] else string_of_nat (n div 10) @ [digit_char (n mod 10)])"

text \<open>
  A Python \<^verbatim>\<open>float\<close> is an IEEE 754 binary64 number. Its finite values are rational
  numbers, and every operation returns the exact result rounded to the nearest
  representable number, ties to the even significand. A float is modelled by its value.
  The exponent range is not modelled: the script divides one row count by another and
  multiplies by 100, which stays far inside the normal range.

  \<open>round_half_even\<close> is rounding to the nearest integer, ties to even;
  \<open>floor_log2 x\<close> is the binade of a positive \<open>x\<close> (\<open>2 ^ k \<le> x < 2 ^ (k + 1)\<close>);
  \<open>round_double\<close> keeps 53 significant bits.
\<close>

definition round_half_even :: "rat \<Rightarrow> int" where
  "round_half_even x =
     (let n = \<lfloor>x\<rfloor>; d = x - of_int n
      in if d < 1 / 2 then n else if 1 / 2 < d then n + 1 else if even n then n else n + 1)"

definition floor_log2 :: "rat \<Rightarrow> int" where
  "floor_log2 x =
     (let (a, b) = quotient_of x; k = bitlen a - bitlen b
      in if power_int 2 k \<le> x then k else k - 1)"

definition round_double :: "rat \<Rightarrow> rat" where
  "round_double x =
     (if x = 0 then 0
      else let e = floor_log2 \<bar>x\<bar> - 52
           in sgn x * of_int (round_half_even (\<bar>x\<bar> / power_int 2 e)) * power_int 2 e)"

text \<open>\<^verbatim>\<open>a / b\<close> on two Python integers: true division, correctly rounded.\<close>

definition py_truediv :: "int \<Rightarrow> int \<Rightarrow> py_exception + rat" where
  "py_truediv a b =
     (if b = 0 then Inl ZeroDivisionError else Inr (round_double (of_int a / of_int b)))"

text \<open>\<^verbatim>\<open>x * y\<close> on floats.\<close>

definition float_mul :: "rat \<Rightarrow> rat \<Rightarrow> rat" where
  "float_mul x y = round_double (x * y)"

text \<open>
  \<^verbatim>\<open>f"{x:.1f}"\<close>: the decimal with one digit after the point that is nearest to the
  exact value of the float, ties to the even digit.
\<close>

definition format_1f :: "rat \<Rightarrow> string" where
  "format_1f x =
     (let tenths = nat (round_half_even (\<bar>x\<bar> * 10))
      in (if x < 0 then ''-'' else [])
           @ string_of_nat (tenths div 10) @ ''.'' @ string_of_nat (tenths mod 10))"

section \<open>Summary statistics: the fraud rate (lines 65--66)\<close>

text \<open>
  \<^verbatim>\<open>
  fraud_rate = (len(df[df['is_suspicious'] == True]) / len(df) * 100)
  st.metric("Fraud Rate", f"{fraud_rate:.1f}%")
  \<close>
  No statement around these two lines catches an exception.
\<close>

definition fraud_rate :: "dataframe \<Rightarrow> py_exception + rat" where
  "fraud_rate df =
     (case py_truediv (int (length (filter (\<lambda>r. is_suspicious r = True) df))) (int (length df)) of
        Inl e \<Rightarrow> Inl e
      | Inr q \<Rightarrow> Inr (float_mul q 100))"

definition fraud_rate_metric :: "dataframe \<Rightarrow> py_exception + string" where
  "fraud_rate_metric df =
     (case fraud_rate df of
        Inl e \<Rightarrow> Inl e
      | Inr rate \<Rightarrow> Inr (format_1f rate @ ''%''))"

section \<open>Face images (lines 130--136)\<close>

text \<open>
  \<^verbatim>\<open>
  img_cols = st.columns(4)
  for i, img_path in enumerate(voter_data['image_path']):
      with img_cols[i % 4]:
          try:
              st.image(img_path, width=150, caption=f"Image {i+1}")
          except:
              st.error(f"Cannot load image: {img_path}")
  \<close>
  What the page shows is a list of elements, each in one of the four columns.
  Whether Streamlit can load a path is a fact of the file system, not of the script:
  it is the parameter \<open>readable\<close>, and \<^verbatim>\<open>st.image\<close> raises when the path is
  not readable.
\<close>

datatype element =
    Image string nat string
  | ErrorBox string

definition st_image :: "(string \<Rightarrow> bool) \<Rightarrow> string \<Rightarrow> nat \<Rightarrow> string \<Rightarrow> py_exception + element" where
  "st_image readable path width caption =
     (if readable path then Inr (Image path width caption) else Inl (ImageLoadError path))"

definition st_error :: "string \<Rightarrow> py_exception + element" where
  "st_error message = Inr (ErrorBox message)"

definition gallery_body :: "(string \<Rightarrow> bool) \<Rightarrow> nat \<Rightarrow> string \<Rightarrow> py_exception + element" where
  "gallery_body readable i img_path =
     (case st_image readable img_path 150 (''Image '' @ string_of_nat (i + 1)) of
        Inr shown \<Rightarrow> Inr shown
      | Inl raised \<Rightarrow> st_error (''Cannot load image: '' @ img_path))"

fun gallery_loop ::
  "(string \<Rightarrow> bool) \<Rightarrow> nat \<Rightarrow> string list \<Rightarrow> (nat \<times> element) list
     \<Rightarrow> py_exception + (nat \<times> element) list" where
  "gallery_loop readable i [] page = Inr page"
| "gallery_loop readable i (img_path # rest) page =
     (case gallery_body readable i img_path of
        Inl e \<Rightarrow> Inl e
      | Inr shown \<Rightarrow> gallery_loop readable (i + 1) rest (page @ [(i mod 4, shown)]))"

definition face_images :: "(string \<Rightarrow> bool) \<Rightarrow> vote_record list \<Rightarrow> py_exception + (nat \<times> element) list" where
  "face_images readable voter_data = gallery_loop readable 0 (map image_path voter_data) []"

text \<open>What one path is expected to show at position \<open>i\<close>.\<close>

definition gallery_cell :: "(string \<Rightarrow> bool) \<Rightarrow> nat \<Rightarrow> string \<Rightarrow> nat \<times> element" where
  "gallery_cell readable i img_path =
     (i mod 4,
      if readable img_path then Image img_path 150 (''Image '' @ string_of_nat (i + 1))
      else ErrorBox (''Cannot load image: '' @ img_path))"

section \<open>What read_csv makes of a cell\<close>

text \<open>
  \<^verbatim>\<open>pd.read_csv\<close> (line 30) infers a type for every column and converts the text of
  each cell: a cell it takes as missing becomes NaN; in a column of numbers the other
  cells become numbers (dtype int64 or float64) and in a column of \<^verbatim>\<open>True\<close> and
  \<^verbatim>\<open>False\<close> booleans; in any other column they stay strings (dtype object). The
  comparisons of a cell with a string literal, which the sections above model on the
  text, do not depend on this: NaN, a number and a boolean all differ from the literal,
  as the text of such a cell does. Grouping, sorting and \<^verbatim>\<open>str.join\<close> do depend on it.
\<close>

datatype cell = NaN | Text string | Number rat | Boolean bool

text \<open>
  A reader is the conversion \<^verbatim>\<open>read_csv\<close> applied to the cells of one column. Which
  one it is depends on the whole column, so the definitions that use cell values take
  the reader of the column as a parameter.
\<close>

type_synonym column_reader = "string \<Rightarrow> cell"

text \<open>
  The texts \<^verbatim>\<open>read_csv\<close> takes as missing by default, as pandas documents them. The
  first is the empty cell.
\<close>

definition na_values :: "string list" where
  "na_values =
     ['''', ''#N/A'', ''#N/A N/A'', ''#NA'', ''-1.#IND'', ''-1.#QNAN'', ''-NaN'', ''-nan'',
      ''1.#IND'', ''1.#QNAN'', ''<NA>'', ''N/A'', ''NA'', ''NULL'', ''NaN'', ''None'', ''n/a'',
      ''nan'', ''null'']"

text \<open>The reader of a column that stays text (dtype object).\<close>

definition object_column :: column_reader where
  "object_column s = (if s \<in> set na_values then NaN else Text s)"

text \<open>
  The reader of a column in which every cell is a decimal numeral without sign
  (dtype int64).
\<close>

definition decimal_value :: "string \<Rightarrow> nat" where
  "decimal_value s = foldl (\<lambda>n c. 10 * n + (of_char c - 48)) 0 s"

definition int64_column :: column_reader where
  "int64_column s = Number (of_nat (decimal_value s))"

text \<open>
  The order in which pandas sorts the values of a column: booleans with
  \<^verbatim>\<open>False\<close> first, numbers by value, strings by code point. After the rows with NaN
  are dropped a column holds values of one kind only; the rank also orders values of
  different kinds, which \<^verbatim>\<open>read_csv\<close> never puts into one column.
\<close>

fun cell_rank :: "cell \<Rightarrow> nat \<times> rat \<times> string" where
  "cell_rank NaN = (0, 0, [])"
| "cell_rank (Boolean b) = (1, of_bool b, [])"
| "cell_rank (Number q) = (2, q, [])"
| "cell_rank (Text s) = (3, 0, s)"

section \<open>Constituency breakdown (lines 160--199)\<close>

text \<open>
  \<^verbatim>\<open>DataFrame.groupby([k1, k2]).size().reset_index()\<close> with pandas' defaults
  (\<^verbatim>\<open>sort=True\<close>, \<^verbatim>\<open>dropna=True\<close>): a row whose key holds NaN in either column
  belongs to no group; there is one entry per distinct key of the remaining rows, in
  sorted key order, with the number of rows that have the key.
\<close>

definition groupby_size :: "('r \<Rightarrow> cell \<times> cell) \<Rightarrow> 'r list \<Rightarrow> ((cell \<times> cell) \<times> nat) list" where
  "groupby_size key rows =
     (let kept = filter (\<lambda>r. fst (key r) \<noteq> NaN \<and> snd (key r) \<noteq> NaN) rows
      in map (\<lambda>k. (k, length (filter (\<lambda>r. key r = k) kept)))
           (sort_key (\<lambda>(c, f). (cell_rank c, cell_rank f)) (remdups (map key kept))))"

text \<open>
  A reshaped table: row labels, column labels, and the cells row by row.
\<close>

record 'a pivot_frame =
  pf_index :: "cell list"
  pf_columns :: "cell list"
  pf_values :: "'a list list"

text \<open>
  \<^verbatim>\<open>DataFrame.pivot(index=, columns=, values=)\<close> on a list of
  ((index label, column label), value) entries: labels sorted and distinct, a cell
  holds the entry's value, or nothing (NaN) when no entry has that pair of labels.
  pandas raises \<^verbatim>\<open>ValueError\<close> when two entries share a pair of labels.
\<close>

definition pivot :: "((cell \<times> cell) \<times> nat) list \<Rightarrow> py_exception + nat option pivot_frame" where
  "pivot entries =
     (if \<not> distinct (map fst entries) then Inl ValueError
      else let idx = sort_key cell_rank (remdups (map (fst \<circ> fst) entries));
               cols = sort_key cell_rank (remdups (map (snd \<circ> fst) entries))
           in Inr \<lparr>pf_index = idx, pf_columns = cols,
                   pf_values = map (\<lambda>c. map (\<lambda>f. map_of entries (c, f)) cols) idx\<rparr>)"

text \<open>\<^verbatim>\<open>.fillna(0).astype(int)\<close>\<close>

definition fillna_astype_int :: "nat option pivot_frame \<Rightarrow> int pivot_frame" where
  "fillna_astype_int p =
     \<lparr>pf_index = pf_index p, pf_columns = pf_columns p,
      pf_values = map (map (\<lambda>v. case v of None \<Rightarrow> 0 | Some n \<Rightarrow> int n)) (pf_values p)\<rparr>"

text \<open>
  \<^verbatim>\<open>
  suspicious_df = df[df['is_suspicious'] == True]
  if len(suspicious_df) > 0:
      ...
      detailed_summary = suspicious_df.groupby(['voting_constituency', 'fraud_type']).size().reset_index()
      detailed_summary.columns = ['Constituency', 'Fraud Type', 'Count']
      pivot_table = detailed_summary.pivot(index='Constituency', columns='Fraud Type',
                                           values='Count').fillna(0).astype(int)
      st.dataframe(pivot_table, use_container_width=True)
  else:
      st.info("No suspicious votes detected in the dataset.")
  \<close>
  \<open>read_vc\<close> and \<open>read_ft\<close> are the readers of the columns
  \<^verbatim>\<open>voting_constituency\<close> and \<^verbatim>\<open>fraud_type\<close>. The result is \<open>None\<close> in the
  \<^verbatim>\<open>else\<close> branch, where no table is built.
\<close>

definition suspicious_df :: "dataframe \<Rightarrow> dataframe" where
  "suspicious_df df = filter (\<lambda>r. is_suspicious r = True) df"

definition detailed_summary ::
  "column_reader \<Rightarrow> column_reader \<Rightarrow> dataframe \<Rightarrow> ((cell \<times> cell) \<times> nat) list" where
  "detailed_summary read_vc read_ft df =
     groupby_size (\<lambda>r. (read_vc (voting_constituency r), read_ft (fraud_type r))) (suspicious_df df)"

definition pivot_table ::
  "column_reader \<Rightarrow> column_reader \<Rightarrow> dataframe \<Rightarrow> (py_exception + int pivot_frame) option" where
  "pivot_table read_vc read_ft df =
     (if length (suspicious_df df) > 0
      then Some (case pivot (detailed_summary read_vc read_ft df) of
                   Inl e \<Rightarrow> Inl e
                 | Inr p \<Rightarrow> Inr (fillna_astype_int p))
      else None)"

text \<open>The sum of all cells of a pivot table.\<close>

definition pivot_total :: "int pivot_frame \<Rightarrow> int" where
  "pivot_total p = sum_list (map sum_list (pf_values p))"

section \<open>Double voting tab (lines 230--243)\<close>

text \<open>
  \<^verbatim>\<open>
  double_voters = df[df['fraud_type'] == 'double_voting']['voter_id'].unique()
  if len(double_voters) > 0:
      double_summary = []
      for voter in double_voters:
          count = len(df[(df['voter_id'] == voter)])
          double_summary.append({
              'Voter ID': voter,
              'Number of Votes': count,
              'Constituencies': ', '.join(df[df['voter_id'] == voter]['voting_constituency'].unique())
          })
      st.dataframe(pd.DataFrame(double_summary), use_container_width=True)
  else:
      st.info("No double voting detected.")
  \<close>
  \<^verbatim>\<open>str.join\<close> raises \<^verbatim>\<open>TypeError\<close> when an item is not a string. The items
  here are the values of the column \<^verbatim>\<open>voting_constituency\<close> as \<^verbatim>\<open>read_csv\<close> left
  them (\<open>read_vc\<close>), and nothing around the loop catches the exception. The result is
  \<open>None\<close> in the \<^verbatim>\<open>else\<close> branch.
\<close>

fun str_items :: "cell list \<Rightarrow> string list option" where
  "str_items [] = Some []"
| "str_items (Text s # items) = map_option (\<lambda>rest. s # rest) (str_items items)"
| "str_items (item # items) = None"

definition py_join :: "string \<Rightarrow> cell list \<Rightarrow> py_exception + string" where
  "py_join sep items =
     (case str_items items of None \<Rightarrow> Inl TypeError | Some strs \<Rightarrow> Inr (join sep strs))"

record summary_entry =
  Voter_ID :: string
  Number_of_Votes :: nat
  Constituencies :: string

definition double_voters :: "dataframe \<Rightarrow> string list" where
  "double_voters df = unique (map voter_id (filter (\<lambda>r. fraud_type r = ''double_voting'') df))"

fun double_summary_loop ::
  "column_reader \<Rightarrow> dataframe \<Rightarrow> string list \<Rightarrow> summary_entry list
     \<Rightarrow> py_exception + summary_entry list" where
  "double_summary_loop read_vc df [] double_summary = Inr double_summary"
| "double_summary_loop read_vc df (voter # rest) double_summary =
     (let count = length (filter (\<lambda>r. voter_id r = voter) df)
      in case py_join '', ''
                (unique (map (\<lambda>r. read_vc (voting_constituency r))
                           (filter (\<lambda>r. voter_id r = voter) df))) of
           Inl e \<Rightarrow> Inl e
         | Inr joined \<Rightarrow>
             double_summary_loop read_vc df rest
               (double_summary @
                  [\<lparr>Voter_ID = voter, Number_of_Votes = count, Constituencies = joined\<rparr>]))"

definition double_summary :: "column_reader \<Rightarrow> dataframe \<Rightarrow> (py_exception + summary_entry list) option" where
  "double_summary read_vc df =
     (if length (double_voters df) > 0
      then Some (double_summary_loop read_vc df (double_voters df) [])
      else None)"

section \<open>Sample tables\<close>

text \<open>Rows used to evaluate the definitions on concrete tables.\<close>

definition legitimate_row :: vote_record where
  "legitimate_row = \<lparr>voter_id = ''A'', claimed_voter_id = ''A'',
     registered_constituency = ''X'', voting_constituency = ''X'',
     image_path = ''img/a.jpg'', fraud_type = ''legitimate'', is_suspicious = False\<rparr>"

definition double_row_x :: vote_record where
  "double_row_x = \<lparr>voter_id = ''B'', claimed_voter_id = ''B'',
     registered_constituency = ''X'', voting_constituency = ''X'',
     image_path = ''img/b1.jpg'', fraud_type = ''double_voting'', is_suspicious = True\<rparr>"

definition double_row_y :: vote_record where
  "double_row_y = \<lparr>voter_id = ''B'', claimed_voter_id = ''B'',
     registered_constituency = ''X'', voting_constituency = ''Y'',
     image_path = ''img/b2.jpg'', fraud_type = ''double_voting'', is_suspicious = True\<rparr>"

definition theft_row :: vote_record where
  "theft_row = \<lparr>voter_id = ''C'', claimed_voter_id = ''D'',
     registered_constituency = ''Y'', voting_constituency = ''Y'',
     image_path = ''img/c.jpg'', fraud_type = ''same_constituency_identity_theft'',
     is_suspicious = True\<rparr>"

definition cross_row :: vote_record where
  "cross_row = \<lparr>voter_id = ''E'', claimed_voter_id = ''E'',
     registered_constituency = ''X'', voting_constituency = ''Y'',
     image_path = ''img/e.jpg'', fraud_type = ''cross_constituency_voting'',
     is_suspicious = True\<rparr>"

text \<open>A row flagged suspicious whose fraud type is none of the three labels.\<close>

definition other_row :: vote_record where
  "other_row = \<lparr>voter_id = ''B'', claimed_voter_id = ''B'',
     registered_constituency = ''X'', voting_constituency = ''Z'',
     image_path = ''img/b3.jpg'', fraud_type = ''impersonation'', is_suspicious = True\<rparr>"

text \<open>A row labelled double voting whose flag is not set.\<close>

definition unflagged_double_row :: vote_record where
  "unflagged_double_row = \<lparr>voter_id = ''F'', claimed_voter_id = ''F'',
     registered_constituency = ''X'', voting_constituency = ''X'',
     image_path = ''img/f.jpg'', fraud_type = ''double_voting'', is_suspicious = False\<rparr>"

text \<open>
  A suspicious double-voting row of voter B whose voting constituency cell is empty in
  the CSV.
\<close>

definition blank_constituency_row :: vote_record where
  "blank_constituency_row = \<lparr>voter_id = ''B'', claimed_voter_id = ''B'',
     registered_constituency = ''X'', voting_constituency = '''',
     image_path = ''img/b4.jpg'', fraud_type = ''double_voting'', is_suspicious = True\<rparr>"

text \<open>Rows of a table whose constituencies are numbers.\<close>

definition numbered_row_9 :: vote_record where
  "numbered_row_9 = \<lparr>voter_id = ''G'', claimed_voter_id = ''G'',
     registered_constituency = ''9'', voting_constituency = ''9'',
     image_path = ''img/g1.jpg'', fraud_type = ''double_voting'', is_suspicious = True\<rparr>"

definition numbered_row_10 :: vote_record where
  "numbered_row_10 = \<lparr>voter_id = ''G'', claimed_voter_id = ''G'',
     registered_constituency = ''9'', voting_constituency = ''10'',
     image_path = ''img/g2.jpg'', fraud_type = ''double_voting'', is_suspicious = True\<rparr>"

section \<open>Predicates on tables used in the statements\<close>

text \<open>The voter IDs of the three specific categories together.\<close>

definition specific_voters :: "dataframe \<Rightarrow> string set" where
  "specific_voters df =
     set (identity_theft_voters df) \<union> set (cross_constituency_voters df)
       \<union> set (double_voting_voters df)"

text \<open>
  The part of the invariant of section 3 of the specification that the subset relation
  needs: a row that carries one of the three fraud labels is flagged suspicious. The
  code does not check it.
\<close>

definition labels_flagged :: "dataframe \<Rightarrow> bool" where
  "labels_flagged df =
     list_all (\<lambda>r. fraud_type r \<in> set known_fraud_labels \<longrightarrow> is_suspicious r) df"

text \<open>No other fraud types: every suspicious row carries one of the three labels.\<close>

definition no_other_fraud_types :: "dataframe \<Rightarrow> bool" where
  "no_other_fraud_types df =
     list_all (\<lambda>r. is_suspicious r \<longrightarrow> fraud_type r \<in> set known_fraud_labels) df"

text \<open>
  The suspicious rows whose voting constituency and fraud type are both present after
  \<^verbatim>\<open>read_csv\<close>.
\<close>

definition complete_suspicious_rows :: "column_reader \<Rightarrow> column_reader \<Rightarrow> dataframe \<Rightarrow> dataframe" where
  "complete_suspicious_rows read_vc read_ft df =
     filter (\<lambda>r. read_vc (voting_constituency r) \<noteq> NaN \<and> read_ft (fraud_type r) \<noteq> NaN)
       (suspicious_df df)"

text \<open>The string a text cell holds, and whether a cell holds a string.\<close>

definition text_of :: "cell \<Rightarrow> string" where
  "text_of c = (case c of Text s \<Rightarrow> s | _ \<Rightarrow> [])"

definition is_text :: "cell \<Rightarrow> bool" where
  "is_text c = (case c of Text s \<Rightarrow> True | _ \<Rightarrow> False)"

section \<open>Helper lemmas\<close>

declare string_of_nat.simps [simp del]

lemma set_unique_from: "set (unique_from seen xs) = set xs - set seen"
  by (induction xs arbitrary: seen) auto

lemma distinct_unique_from: "distinct (unique_from seen xs)"
  by (induction xs arbitrary: seen) (auto simp: set_unique_from)

lemma set_unique: "set (unique xs) = set xs"
  by (simp add: unique_def set_unique_from)

lemma distinct_unique: "distinct (unique xs)"
  by (simp add: unique_def distinct_unique_from)

lemma unique_Nil_iff: "unique xs = [] \<longleftrightarrow> xs = []"
  using set_unique [of xs] by (metis set_empty)

subsection \<open>The reason column\<close>

lemma fraud_reason_loop_eq:
  "idx + length rows \<le> length col \<Longrightarrow>
   fraud_reason_loop idx rows col =
     take idx col @ map fraud_reason rows @ drop (idx + length rows) col"
proof (induction rows arbitrary: idx col)
  case Nil
  then show ?case by simp
next
  case (Cons row rows)
  have "fraud_reason_loop (Suc idx) rows (col[idx := fraud_reason row]) =
        take (Suc idx) (col[idx := fraud_reason row]) @ map fraud_reason rows
          @ drop (Suc idx + length rows) (col[idx := fraud_reason row])"
    using Cons.prems by (intro Cons.IH) simp
  moreover have "take (Suc idx) (col[idx := fraud_reason row]) = take idx col @ [fraud_reason row]"
    using Cons.prems by (simp add: take_Suc_conv_app_nth)
  ultimately show ?case by simp
qed

lemma fraud_reason_column_eq: "fraud_reason_column rows = map fraud_reason rows"
  by (simp add: fraud_reason_column_def fraud_reason_loop_eq)

lemma reasons_of_spec: "reasons_of row = spec_clauses row"
  by (simp add: reasons_of_def spec_clauses_def Let_def)

subsection \<open>Category sets\<close>

lemma in_specific_voters:
  "v \<in> specific_voters df \<longleftrightarrow>
     (\<exists>r \<in> set df. voter_id r = v \<and> fraud_type r \<in> set known_fraud_labels)"
  by (auto simp: specific_voters_def identity_theft_voters_def cross_constituency_voters_def
      double_voting_voters_def set_unique known_fraud_labels_def)

lemma in_all_suspicious_voters:
  "v \<in> set (all_suspicious_voters df) \<longleftrightarrow> (\<exists>r \<in> set df. voter_id r = v \<and> is_suspicious r)"
  by (auto simp: all_suspicious_voters_def set_unique)

subsection \<open>Rounding\<close>

lemma round_half_even_error: "\<bar>of_int (round_half_even x) - x\<bar> \<le> 1 / 2"
proof -
  define n where "n = \<lfloor>x\<rfloor>"
  have "of_int n \<le> x" "x < of_int n + 1" unfolding n_def by linarith+
  then show ?thesis
    unfolding round_half_even_def Let_def n_def [symmetric]
    by (simp add: abs_if)
qed

lemma round_half_even_nonneg: "0 \<le> x \<Longrightarrow> 0 \<le> round_half_even x"
proof -
  assume "0 \<le> x"
  then have "0 \<le> \<lfloor>x\<rfloor>" by simp
  then show ?thesis by (auto simp: round_half_even_def Let_def)
qed

lemma power_int_two_nat: "0 \<le> k \<Longrightarrow> power_int (2::rat) k = of_int (2 ^ nat k)"
  by (simp add: power_int_def)

lemma floor_log2_bounds:
  assumes "0 < x"
  shows "power_int 2 (floor_log2 x) \<le> x \<and> x < power_int 2 (floor_log2 x + 1)"
proof -
  obtain a b where ab: "quotient_of x = (a, b)" by (cases "quotient_of x")
  then have b: "0 < b" and x: "x = of_int a / of_int b"
    using quotient_of_denom_pos quotient_of_div by auto
  with assms have a: "0 < a"
    by (simp add: zero_less_divide_iff)
  define la where "la = bitlen a"
  define lb where "lb = bitlen b"
  have la: "(2::int) ^ nat (la - 1) \<le> a" "a < 2 ^ nat la"
    using bitlen_bounds [OF a] by (simp_all add: la_def)
  have lb: "(2::int) ^ nat (lb - 1) \<le> b" "b < 2 ^ nat lb"
    using bitlen_bounds [OF b] by (simp_all add: lb_def)
  have la1: "1 \<le> la"
  proof (rule ccontr)
    assume "\<not> 1 \<le> la"
    then have "nat la = 0" by simp
    with la(2) a show False by simp
  qed
  have lb1: "1 \<le> lb"
  proof (rule ccontr)
    assume "\<not> 1 \<le> lb"
    then have "nat lb = 0" by simp
    with lb(2) b show False by simp
  qed
  have ra: "power_int (2::rat) (la - 1) \<le> of_int a" "of_int a < power_int (2::rat) la"
    using la la1 by (simp_all only: power_int_two_nat of_int_le_iff of_int_less_iff)
  have rb: "power_int (2::rat) (lb - 1) \<le> of_int b" "of_int b < power_int (2::rat) lb"
    using lb lb1 by (simp_all only: power_int_two_nat of_int_le_iff of_int_less_iff)
  have bpos: "(0::rat) < of_int b" using b by simp
  have up: "x < power_int 2 (la - lb + 1)"
  proof -
    have "x < power_int 2 la / of_int b"
      using ra(2) bpos by (simp add: x divide_strict_right_mono)
    also have "\<dots> \<le> power_int 2 la / power_int 2 (lb - 1)"
      using rb(1) bpos by (intro divide_left_mono) simp_all
    also have "\<dots> = power_int 2 (la - (lb - 1))"
      by (simp add: power_int_diff)
    finally show ?thesis by (simp add: algebra_simps)
  qed
  have lo: "power_int 2 (la - lb - 1) \<le> x"
  proof -
    have "power_int (2::rat) (la - 1 - lb) = power_int 2 (la - 1) / power_int 2 lb"
      by (simp add: power_int_diff)
    also have "\<dots> \<le> of_int a / power_int 2 lb"
      using ra(1) by (intro divide_right_mono) simp_all
    also have "\<dots> \<le> of_int a / of_int b"
      using rb(2) bpos a by (intro divide_left_mono) simp_all
    finally show ?thesis by (simp add: x algebra_simps)
  qed
  show ?thesis
    using up lo ab by (auto simp: floor_log2_def la_def lb_def Let_def not_le)
qed

text \<open>Rounding to binary64 has relative error at most \<open>2 ^ -53\<close>.\<close>

lemma round_double_pos:
  assumes "0 < x"
  shows "\<bar>round_double x - x\<bar> \<le> x / 2 ^ 53 \<and> 0 \<le> round_double x"
proof -
  define e where "e = floor_log2 x - 52"
  define y where "y = x / power_int 2 e"
  define m where "m = round_half_even y"
  have p2: "(0::rat) < power_int 2 e" by simp
  have rd: "round_double x = of_int m * power_int 2 e"
    using assms by (simp add: round_double_def Let_def e_def y_def m_def)
  have xy: "x = y * power_int 2 e" by (simp add: y_def)
  have "0 \<le> y" using assms by (simp add: y_def)
  then have m0: "0 \<le> m" unfolding m_def by (rule round_half_even_nonneg)
  have half: "\<bar>of_int m - y\<bar> \<le> 1 / 2" unfolding m_def by (rule round_half_even_error)
  have step: "power_int (2::rat) e \<le> x / 2 ^ 52"
  proof -
    have "power_int (2::rat) e = power_int 2 (floor_log2 x) / power_int 2 52"
      unfolding e_def by (simp add: power_int_diff)
    also have "\<dots> \<le> x / power_int 2 52"
      using floor_log2_bounds [OF assms] by (intro divide_right_mono) simp_all
    finally show ?thesis by simp
  qed
  have "(of_int m - y) * power_int 2 e = of_int m * power_int 2 e - y * power_int 2 e"
    by (simp add: algebra_simps)
  also have "\<dots> = round_double x - x"
    by (simp only: rd xy [symmetric])
  finally have "round_double x - x = (of_int m - y) * power_int 2 e" by simp
  then have "\<bar>round_double x - x\<bar> = \<bar>(of_int m - y) * power_int 2 e\<bar>" by simp
  also have "\<dots> = \<bar>of_int m - y\<bar> * power_int 2 e" by (subst abs_mult) simp
  also have "\<dots> \<le> 1 / 2 * power_int 2 e"
    using half p2 by (intro mult_right_mono) simp_all
  also have "\<dots> \<le> 1 / 2 * (x / 2 ^ 52)"
    using step by (intro mult_left_mono) simp_all
  also have "\<dots> = x / 2 ^ 53" by simp
  finally have "\<bar>round_double x - x\<bar> \<le> x / 2 ^ 53" .
  moreover have "0 \<le> round_double x" unfolding rd using m0 by simp
  ultimately show ?thesis by simp
qed

lemma round_double_zero: "round_double 0 = 0"
  by (simp add: round_double_def)

lemma round_double_one: "round_double 1 = 1"
  by code_simp

lemma float_mul_one_hundred: "float_mul 1 100 = 100"
  by code_simp

lemma format_1f_zero: "format_1f 0 = ''0.0''"
  by code_simp

lemma format_1f_hundred: "format_1f 100 = ''100.0''"
  by code_simp

text \<open>
  The model on some quotients; CPython prints the same digits
  (\<^verbatim>\<open>f"{1/800*100:.1f}"\<close> is \<^verbatim>\<open>0.1\<close>: the product is exactly 0.125, a tie
  that goes to the even digit; \<^verbatim>\<open>f"{1/2000*100:.1f}"\<close> is \<^verbatim>\<open>0.1\<close>: the product
  is the float just above 0.05).
\<close>

lemma rate_format_examples:
  "format_1f (float_mul (round_double (1 / 3)) 100) = ''33.3''"
  "format_1f (float_mul (round_double (1 / 800)) 100) = ''0.1''"
  "format_1f (float_mul (round_double (3 / 800)) 100) = ''0.4''"
  "format_1f (float_mul (round_double (1 / 2000)) 100) = ''0.1''"
  "float_mul (round_double (1 / 3)) 100 = 2345624805922133 / 70368744177664"
  by code_simp+

text \<open>
  Dividing and then multiplying by 100, each rounded: the result is within
  \<open>2 ^ -45\<close> of the exact percentage.
\<close>

lemma rate_error:
  assumes q: "0 < q" "q \<le> 1"
  shows "\<bar>float_mul (round_double q) 100 - q * 100\<bar> \<le> 1 / 2 ^ 45
         \<and> 0 \<le> float_mul (round_double q) 100"
proof -
  define q1 where "q1 = round_double q"
  define x where "x = float_mul q1 100"
  have e1: "\<bar>q1 - q\<bar> \<le> q / 2 ^ 53" and "0 \<le> q1"
    using round_double_pos [OF q(1)] by (simp_all add: q1_def)
  have q1pos: "0 < q1"
  proof (rule ccontr)
    assume "\<not> 0 < q1"
    with \<open>0 \<le> q1\<close> have "q1 = 0" by simp
    with e1 have "q \<le> q / 2 ^ 53" using q(1) by simp
    with q(1) show False by simp
  qed
  have q1le: "q1 \<le> q + q / 2 ^ 53"
  proof -
    have "q1 - q \<le> \<bar>q1 - q\<bar>" by simp
    with e1 show ?thesis by linarith
  qed
  have ppos: "0 < q1 * 100" using q1pos by simp
  have e2: "\<bar>x - q1 * 100\<bar> \<le> q1 * 100 / 2 ^ 53" and x0: "0 \<le> x"
    using round_double_pos [OF ppos] by (simp_all add: x_def float_mul_def)
  have "x - q * 100 = (x - q1 * 100) + (q1 - q) * 100" by (simp add: algebra_simps)
  then have "\<bar>x - q * 100\<bar> \<le> \<bar>x - q1 * 100\<bar> + \<bar>(q1 - q) * 100\<bar>"
    by (simp only: abs_triangle_ineq)
  also have "\<dots> = \<bar>x - q1 * 100\<bar> + \<bar>q1 - q\<bar> * 100" by (subst abs_mult) simp
  also have "\<dots> \<le> q1 * 100 / 2 ^ 53 + q / 2 ^ 53 * 100"
    using e1 e2 by (intro add_mono) simp_all
  also have "\<dots> \<le> (q + q / 2 ^ 53) * 100 / 2 ^ 53 + q / 2 ^ 53 * 100"
    using q1le by (simp add: divide_right_mono)
  also have "\<dots> \<le> (1 + 1 / 2 ^ 53) * 100 / 2 ^ 53 + 1 / 2 ^ 53 * 100"
    using q by simp
  also have "\<dots> \<le> 1 / 2 ^ 45" by simp
  finally show ?thesis using x0 by (simp add: x_def q1_def)
qed

lemma format_1f_nonneg:
  assumes "0 \<le> x"
  shows "\<exists>tenths. \<bar>of_nat tenths / 10 - x\<bar> \<le> 1 / 20
           \<and> format_1f x = string_of_nat (tenths div 10) @ ''.'' @ [digit_char (tenths mod 10)]"
proof -
  define t where "t = round_half_even (x * 10)"
  have t0: "0 \<le> t" unfolding t_def using assms by (intro round_half_even_nonneg) simp
  have half: "\<bar>of_int t - x * 10\<bar> \<le> 1 / 2" unfolding t_def by (rule round_half_even_error)
  have "of_int t / 10 - x = (of_int t - x * 10) / 10" by simp
  then have "\<bar>of_int t / 10 - x\<bar> = \<bar>of_int t - x * 10\<bar> / 10"
    by (simp only: abs_divide abs_numeral)
  also have "\<dots> \<le> 1 / 2 / 10" using half by (intro divide_right_mono) simp_all
  finally have "\<bar>of_int t / 10 - x\<bar> \<le> 1 / 20" by simp
  moreover have "of_nat (nat t) = (of_int t :: rat)" using t0 by simp
  ultimately have err: "\<bar>of_nat (nat t) / 10 - x\<bar> \<le> 1 / 20" by simp
  have "string_of_nat (nat t mod 10) = [digit_char (nat t mod 10)]"
    by (subst string_of_nat.simps) simp
  then have "format_1f x = string_of_nat (nat t div 10) @ ''.'' @ [digit_char (nat t mod 10)]"
    using assms by (simp add: format_1f_def Let_def t_def)
  with err show ?thesis by blast
qed

section \<open>The claims\<close>

subsection \<open>Fraud rate\<close>

text \<open>
  Claim C1 asks that the fraud-rate metric of a table with zero rows be guarded against
  division by zero. The code has no guard: for the empty table the division raises
  \<^verbatim>\<open>ZeroDivisionError\<close>, nothing catches it, and no metric is produced.
\<close>

theorem fraud_rate_empty_table_raises:
  "fraud_rate [] = Inl ZeroDivisionError \<and> fraud_rate_metric [] = Inl ZeroDivisionError"
  by (simp add: fraud_rate_metric_def fraud_rate_def py_truediv_def)

text \<open>
  Claim C4: for a table with at least one row the fraud rate is defined; it is the
  percentage of suspicious rows (suspicious count divided by total count, times 100, in
  floating point: within \<open>2 ^ -45\<close> of the exact percentage), the metric shows it
  with one digit after the decimal point (the nearest tenth of the computed rate)
  followed by a percent sign; with no suspicious row the metric is \<^verbatim>\<open>0.0%\<close>, and
  when every row is suspicious it is \<^verbatim>\<open>100.0%\<close>.
\<close>

theorem fraud_rate_is_percentage:
  assumes "df \<noteq> []"
  shows "(\<exists>rate tenths.
            fraud_rate df = Inr rate
          \<and> \<bar>rate - of_nat (length (filter is_suspicious df)) / of_nat (length df) * 100\<bar>
               \<le> 1 / 2 ^ 45
          \<and> \<bar>of_nat tenths / 10 - rate\<bar> \<le> 1 / 20
          \<and> fraud_rate_metric df =
               Inr (string_of_nat (tenths div 10) @ ''.'' @ [digit_char (tenths mod 10)] @ ''%''))
       \<and> (filter is_suspicious df = [] \<longrightarrow> fraud_rate_metric df = Inr ''0.0%'')
       \<and> (filter is_suspicious df = df \<longrightarrow> fraud_rate_metric df = Inr ''100.0%'')"
proof -
  define s where "s = length (filter is_suspicious df)"
  define n where "n = length df"
  have n: "0 < n" using assms by (simp add: n_def)
  have sn: "s \<le> n" by (simp add: s_def n_def)
  define q :: rat where "q = of_nat s / of_nat n"
  define rate where "rate = float_mul (round_double q) 100"
  have fr: "fraud_rate df = Inr rate"
    using n by (simp add: fraud_rate_def py_truediv_def rate_def q_def s_def n_def)
  have metric: "fraud_rate_metric df = Inr (format_1f rate @ ''%'')"
    by (simp add: fraud_rate_metric_def fr)
  have bound: "\<bar>rate - q * 100\<bar> \<le> 1 / 2 ^ 45 \<and> 0 \<le> rate"
  proof (cases "s = 0")
    case True
    then show ?thesis by (simp add: rate_def q_def float_mul_def round_double_zero)
  next
    case False
    then have "0 < q" "q \<le> 1" using n sn by (simp_all add: q_def)
    then show ?thesis unfolding rate_def by (rule rate_error)
  qed
  then obtain tenths where t: "\<bar>of_nat tenths / 10 - rate\<bar> \<le> 1 / 20"
    "format_1f rate = string_of_nat (tenths div 10) @ ''.'' @ [digit_char (tenths mod 10)]"
    using format_1f_nonneg [of rate] by blast
  have general: "\<exists>rate tenths.
           fraud_rate df = Inr rate
         \<and> \<bar>rate - of_nat (length (filter is_suspicious df)) / of_nat (length df) * 100\<bar>
              \<le> 1 / 2 ^ 45
         \<and> \<bar>of_nat tenths / 10 - rate\<bar> \<le> 1 / 20
         \<and> fraud_rate_metric df =
              Inr (string_of_nat (tenths div 10) @ ''.'' @ [digit_char (tenths mod 10)] @ ''%'')"
    using fr bound t metric unfolding q_def s_def n_def
    by (intro exI [of _ rate] exI [of _ tenths]) simp
  have none: "fraud_rate_metric df = Inr ''0.0%''" if "filter is_suspicious df = []"
  proof -
    have "rate = 0" using that by (simp add: rate_def q_def s_def float_mul_def round_double_zero)
    then show ?thesis by (simp add: metric format_1f_zero)
  qed
  have every: "fraud_rate_metric df = Inr ''100.0%''" if "filter is_suspicious df = df"
  proof -
    have "q = 1" using that n by (simp add: q_def s_def n_def)
    then have "rate = 100" by (simp add: rate_def round_double_one float_mul_one_hundred)
    then show ?thesis by (simp add: metric format_1f_hundred)
  qed
  show ?thesis using general none every by blast
qed

theorem fraud_rate_is_percentage_witness:
  "fraud_rate_metric [legitimate_row, legitimate_row, legitimate_row] = Inr ''0.0%''
   \<and> fraud_rate_metric [double_row_x, double_row_y] = Inr ''100.0%''"
  using fraud_rate_is_percentage [of "[legitimate_row, legitimate_row, legitimate_row]"]
    fraud_rate_is_percentage [of "[double_row_x, double_row_y]"]
  by (simp add: legitimate_row_def double_row_x_def double_row_y_def)

subsection \<open>Categorization\<close>

text \<open>
  Claim C2, as stated, says that for every table the voter IDs of the three specific
  categories are among the suspicious voter IDs, with equality exactly when no other
  fraud types exist. Both parts fail on the code, which reads the label and the flag
  as two independent columns: a row labelled double voting whose flag is not set puts
  its voter into a specific category and not into the suspicious set; and in a table
  where the three labels are all flagged, the sets can be equal although a suspicious
  row carries another fraud type (the same voter also has a double-voting row).
\<close>

theorem specific_voters_subset_counterexample:
  "\<not> specific_voters [unflagged_double_row] \<subseteq> set (all_suspicious_voters [unflagged_double_row])
   \<and> labels_flagged [double_row_x, other_row]
   \<and> specific_voters [double_row_x, other_row] =
       set (all_suspicious_voters [double_row_x, other_row])
   \<and> \<not> no_other_fraud_types [double_row_x, other_row]"
  by (simp add: specific_voters_def identity_theft_voters_def cross_constituency_voters_def
      double_voting_voters_def all_suspicious_voters_def unique_def unflagged_double_row_def
      double_row_x_def other_row_def labels_flagged_def no_other_fraud_types_def
      known_fraud_labels_def)

text \<open>
  Claim C2, amended: for every table in which each row carrying one of the three fraud
  labels is flagged suspicious, the voter IDs of the three specific categories are among
  the suspicious voter IDs; the two sets are equal when no suspicious row carries another
  fraud type, and in general exactly when every suspicious row's voter also has a row
  with one of the three labels.
\<close>

theorem specific_voters_subset_all_suspicious:
  assumes "labels_flagged df"
  shows "specific_voters df \<subseteq> set (all_suspicious_voters df)
    \<and> (no_other_fraud_types df \<longrightarrow> specific_voters df = set (all_suspicious_voters df))
    \<and> (specific_voters df = set (all_suspicious_voters df) \<longleftrightarrow>
         (\<forall>r \<in> set df. is_suspicious r \<longrightarrow>
            (\<exists>r' \<in> set df. voter_id r' = voter_id r \<and> fraud_type r' \<in> set known_fraud_labels)))"
proof -
  let ?R = "\<forall>r \<in> set df. is_suspicious r \<longrightarrow>
            (\<exists>r' \<in> set df. voter_id r' = voter_id r \<and> fraud_type r' \<in> set known_fraud_labels)"
  have flagged: "is_suspicious r" if "r \<in> set df" "fraud_type r \<in> set known_fraud_labels" for r
    using assms that by (auto simp: labels_flagged_def list_all_iff)
  have sub: "specific_voters df \<subseteq> set (all_suspicious_voters df)"
  proof
    fix v assume "v \<in> specific_voters df"
    then obtain r where "r \<in> set df" "voter_id r = v" "fraud_type r \<in> set known_fraud_labels"
      unfolding in_specific_voters by auto
    then show "v \<in> set (all_suspicious_voters df)"
      unfolding in_all_suspicious_voters using flagged by auto
  qed
  have sup: "set (all_suspicious_voters df) \<subseteq> specific_voters df" if ?R
  proof
    fix v assume "v \<in> set (all_suspicious_voters df)"
    then obtain r where r: "r \<in> set df" "voter_id r = v" "is_suspicious r"
      unfolding in_all_suspicious_voters by auto
    with that obtain r' where "r' \<in> set df" "voter_id r' = voter_id r"
      "fraud_type r' \<in> set known_fraud_labels" by auto
    with r show "v \<in> specific_voters df"
      unfolding in_specific_voters by auto
  qed
  have only_if: ?R if eq: "specific_voters df = set (all_suspicious_voters df)"
  proof (intro ballI impI)
    fix r assume "r \<in> set df" "is_suspicious r"
    then have "voter_id r \<in> set (all_suspicious_voters df)"
      unfolding in_all_suspicious_voters by auto
    then have "voter_id r \<in> specific_voters df" using eq by simp
    then show "\<exists>r' \<in> set df. voter_id r' = voter_id r \<and> fraud_type r' \<in> set known_fraud_labels"
      unfolding in_specific_voters by auto
  qed
  have none: ?R if "no_other_fraud_types df"
    using that by (auto simp: no_other_fraud_types_def list_all_iff)
  show ?thesis
    using sub sup only_if none by (intro conjI impI iffI equalityI) auto
qed

theorem specific_voters_subset_all_suspicious_witness:
  "specific_voters [double_row_x, other_row, legitimate_row]
     \<subseteq> set (all_suspicious_voters [double_row_x, other_row, legitimate_row])
   \<and> specific_voters [theft_row, cross_row, double_row_x, legitimate_row] =
       set (all_suspicious_voters [theft_row, cross_row, double_row_x, legitimate_row])"
  using specific_voters_subset_all_suspicious [of "[double_row_x, other_row, legitimate_row]"]
    specific_voters_subset_all_suspicious [of "[theft_row, cross_row, double_row_x, legitimate_row]"]
  by (simp add: labels_flagged_def no_other_fraud_types_def double_row_x_def other_row_def
      legitimate_row_def theft_row_def cross_row_def known_fraud_labels_def)

text \<open>
  Claim C5: the dictionary has the four names, in this order; each value is a list of
  voter IDs without repetition; each of the three specific lists holds the voter IDs of
  the rows whose fraud type equals its label, and the fourth those of the rows whose flag
  is set. The buckets are independent: a row that is flagged suspicious and carries
  none of the three labels puts its voter ID into the fourth list and changes none of
  the three specific lists (they are what they are without that row).
\<close>

theorem fraud_categories_four_buckets:
  "map fst (fraud_categories df) =
     [''Same Constituency Identity Theft'', ''Cross-Constituency Voting'', ''Double Voting'',
      ''All Suspicious Voters'']
   \<and> map snd (fraud_categories df) =
     [identity_theft_voters df, cross_constituency_voters df, double_voting_voters df,
      all_suspicious_voters df]
   \<and> distinct (identity_theft_voters df) \<and> distinct (cross_constituency_voters df)
   \<and> distinct (double_voting_voters df) \<and> distinct (all_suspicious_voters df)
   \<and> set (identity_theft_voters df) =
        {voter_id r | r. r \<in> set df \<and> fraud_type r = ''same_constituency_identity_theft''}
   \<and> set (cross_constituency_voters df) =
        {voter_id r | r. r \<in> set df \<and> fraud_type r = ''cross_constituency_voting''}
   \<and> set (double_voting_voters df) =
        {voter_id r | r. r \<in> set df \<and> fraud_type r = ''double_voting''}
   \<and> set (all_suspicious_voters df) = {voter_id r | r. r \<in> set df \<and> is_suspicious r}
   \<and> (is_suspicious row \<and> fraud_type row \<notin> set known_fraud_labels \<longrightarrow>
        voter_id row \<in> set (all_suspicious_voters (df1 @ row # df2))
        \<and> identity_theft_voters (df1 @ row # df2) = identity_theft_voters (df1 @ df2)
        \<and> cross_constituency_voters (df1 @ row # df2) = cross_constituency_voters (df1 @ df2)
        \<and> double_voting_voters (df1 @ row # df2) = double_voting_voters (df1 @ df2))"
proof (intro conjI impI)
  show "set (identity_theft_voters df) =
        {voter_id r | r. r \<in> set df \<and> fraud_type r = ''same_constituency_identity_theft''}"
    unfolding identity_theft_voters_def set_unique by auto
  show "set (cross_constituency_voters df) =
        {voter_id r | r. r \<in> set df \<and> fraud_type r = ''cross_constituency_voting''}"
    unfolding cross_constituency_voters_def set_unique by auto
  show "set (double_voting_voters df) =
        {voter_id r | r. r \<in> set df \<and> fraud_type r = ''double_voting''}"
    unfolding double_voting_voters_def set_unique by auto
  show "set (all_suspicious_voters df) = {voter_id r | r. r \<in> set df \<and> is_suspicious r}"
    unfolding all_suspicious_voters_def set_unique by auto
next
  assume h: "is_suspicious row \<and> fraud_type row \<notin> set known_fraud_labels"
  show "voter_id row \<in> set (all_suspicious_voters (df1 @ row # df2))"
    using h by (simp add: all_suspicious_voters_def set_unique)
  show "identity_theft_voters (df1 @ row # df2) = identity_theft_voters (df1 @ df2)"
    using h by (simp add: identity_theft_voters_def known_fraud_labels_def)
  show "cross_constituency_voters (df1 @ row # df2) = cross_constituency_voters (df1 @ df2)"
    using h by (simp add: cross_constituency_voters_def known_fraud_labels_def)
  show "double_voting_voters (df1 @ row # df2) = double_voting_voters (df1 @ df2)"
    using h by (simp add: double_voting_voters_def known_fraud_labels_def)
qed (simp_all add: fraud_categories_def identity_theft_voters_def cross_constituency_voters_def
      double_voting_voters_def all_suspicious_voters_def distinct_unique)

theorem fraud_categories_four_buckets_witness:
  "all_suspicious_voters [legitimate_row, other_row] = [''B'']
   \<and> identity_theft_voters [legitimate_row, other_row] = []
   \<and> cross_constituency_voters [legitimate_row, other_row] = []
   \<and> double_voting_voters [legitimate_row, other_row] = []"
  using fraud_categories_four_buckets [of "[legitimate_row, other_row]" other_row "[legitimate_row]" "[]"]
  by (simp add: other_row_def legitimate_row_def known_fraud_labels_def all_suspicious_voters_def
      unique_def identity_theft_voters_def cross_constituency_voters_def double_voting_voters_def)

text \<open>
  Claim C6: the list of categories offered for selection holds exactly the names whose
  list of voter IDs is not empty, in the dictionary's order: a category with no member
  is left out, and every category with at least one member is offered.
\<close>

theorem selectable_categories_nonempty_only:
  "selectable_categories df =
     filter (\<lambda>k. \<exists>v. map_of (fraud_categories df) k = Some v \<and> v \<noteq> [])
       (map fst (fraud_categories df))
   \<and> (''Same Constituency Identity Theft'' \<in> set (selectable_categories df)
        \<longleftrightarrow> set (identity_theft_voters df) \<noteq> {})
   \<and> (''Cross-Constituency Voting'' \<in> set (selectable_categories df)
        \<longleftrightarrow> set (cross_constituency_voters df) \<noteq> {})
   \<and> (''Double Voting'' \<in> set (selectable_categories df)
        \<longleftrightarrow> set (double_voting_voters df) \<noteq> {})
   \<and> (''All Suspicious Voters'' \<in> set (selectable_categories df)
        \<longleftrightarrow> set (all_suspicious_voters df) \<noteq> {})
   \<and> set (selectable_categories df) \<subseteq> fst ` set (fraud_categories df)"
  by (auto simp add: selectable_categories_def active_categories_def fraud_categories_def)

subsection \<open>Reason synthesis\<close>

text \<open>
  Claim C3: the reason written into a row of the reason column is a function of that
  row alone (the column is the map of \<open>fraud_reason\<close> over the rows, and two rows that
  agree on the four columns read get the same string); it is the applicable clauses
  joined with \<^verbatim>\<open>"; "\<close>, as section 4.3 of the specification words it; when no
  clause applies, and in particular for every row whose fraud type is
  \<^verbatim>\<open>legitimate\<close>, it is exactly \<^verbatim>\<open>Legitimate\<close>.
\<close>

theorem fraud_reason_deterministic:
  "fraud_reason_column rows = map fraud_reason rows
   \<and> fraud_reason row = spec_reason row
   \<and> (spec_clauses row = [] \<longrightarrow> fraud_reason row = ''Legitimate'')
   \<and> (fraud_type row = ''legitimate'' \<longrightarrow> fraud_reason row = ''Legitimate'')
   \<and> (fraud_type row = fraud_type row' \<and> claimed_voter_id row = claimed_voter_id row'
        \<and> registered_constituency row = registered_constituency row'
        \<and> voting_constituency row = voting_constituency row'
        \<longrightarrow> fraud_reason row = fraud_reason row')"
proof (intro conjI impI)
  show "fraud_reason_column rows = map fraud_reason rows" by (rule fraud_reason_column_eq)
  show "fraud_reason row = spec_reason row"
    by (simp add: fraud_reason_def spec_reason_def reasons_of_spec Let_def)
  show "fraud_reason row = ''Legitimate''" if "spec_clauses row = []"
    using that by (simp add: fraud_reason_def reasons_of_spec Let_def)
  show "fraud_reason row = ''Legitimate''" if "fraud_type row = ''legitimate''"
    using that by (simp add: fraud_reason_def reasons_of_def Let_def)
  show "fraud_reason row = fraud_reason row'"
    if "fraud_type row = fraud_type row' \<and> claimed_voter_id row = claimed_voter_id row'
        \<and> registered_constituency row = registered_constituency row'
        \<and> voting_constituency row = voting_constituency row'"
    using that by (simp add: fraud_reason_def reasons_of_def Let_def
        identity_theft_clause_def cross_constituency_clause_def)
qed

theorem fraud_reason_deterministic_witness:
  "fraud_reason legitimate_row = ''Legitimate''
   \<and> fraud_reason_column [legitimate_row, theft_row, legitimate_row] =
       [''Legitimate'', ''Identity theft: Claims to be D'', ''Legitimate'']"
  using fraud_reason_deterministic [of "[legitimate_row, theft_row, legitimate_row]"
      legitimate_row legitimate_row]
  by (simp add: legitimate_row_def theft_row_def fraud_reason_def reasons_of_def
      identity_theft_clause_def)

text \<open>
  Claim C10: the three clause conditions compare the one fraud type of the row with
  three different labels, so at most one of them holds; the list of reasons has at most
  one element; the reason is one of four strings (the identity-theft clause, the
  cross-constituency clause, \<^verbatim>\<open>Multiple voting attempts detected\<close>,
  \<^verbatim>\<open>Legitimate\<close>); and it is the single clause itself when one applies, so the
  separator never joins two clauses.
\<close>

theorem fraud_reason_single_clause:
  "length (filter (\<lambda>label. fraud_type row = label) known_fraud_labels) \<le> 1
   \<and> length (reasons_of row) \<le> 1
   \<and> fraud_reason row \<in> {identity_theft_clause row, cross_constituency_clause row,
        ''Multiple voting attempts detected'', ''Legitimate''}
   \<and> fraud_reason row = (case reasons_of row of [] \<Rightarrow> ''Legitimate'' | clause # _ \<Rightarrow> clause)"
  by (simp add: known_fraud_labels_def reasons_of_def fraud_reason_def Let_def
      double_voting_clause_def)

subsection \<open>Constituency breakdown\<close>

lemma sum_list_count_by_key:
  assumes "distinct ks" and "g ` set xs \<subseteq> set ks"
  shows "(\<Sum>k\<leftarrow>ks. length (filter (\<lambda>x. g x = k \<and> P x) xs)) = length (filter P xs)"
  using assms(2)
proof (induction xs)
  case Nil
  then show ?case by simp
next
  case (Cons x xs)
  then have IH: "(\<Sum>k\<leftarrow>ks. length (filter (\<lambda>x. g x = k \<and> P x) xs)) = length (filter P xs)"
    and mem: "g x \<in> set ks" by simp_all
  have one: "(\<Sum>k\<leftarrow>ks. if g x = k \<and> P x then 1 else 0) = (if P x then 1 else (0::nat))"
  proof -
    have "(\<Sum>k\<leftarrow>ks. if g x = k \<and> P x then 1 else 0) =
          (\<Sum>k\<in>set ks. if k = g x then (if P x then 1 else 0) else (0::nat))"
      using assms(1) by (subst sum_list_distinct_conv_sum_set) (auto intro: sum.cong)
    also have "\<dots> = (if P x then 1 else 0)"
      using mem by (subst sum.delta) simp_all
    finally show ?thesis .
  qed
  have "(\<Sum>k\<leftarrow>ks. length (filter (\<lambda>x. g x = k \<and> P x) (x # xs))) =
        (\<Sum>k\<leftarrow>ks. (if g x = k \<and> P x then 1 else 0) + length (filter (\<lambda>x. g x = k \<and> P x) xs))"
    by (intro arg_cong [where f = sum_list] map_cong) simp_all
  also have "\<dots> = (\<Sum>k\<leftarrow>ks. if g x = k \<and> P x then 1 else 0)
                    + (\<Sum>k\<leftarrow>ks. length (filter (\<lambda>x. g x = k \<and> P x) xs))"
    by (simp add: sum_list_addf)
  also have "\<dots> = length (filter P (x # xs))"
    by (simp add: one IH)
  finally show ?case .
qed

lemma map_of_keyed:
  "map_of (map (\<lambda>k. (k, f k)) ks) k = (if k \<in> set ks then Some (f k) else None)"
  by (induction ks) auto

lemma detailed_summary_keys:
  "map fst (detailed_summary read_vc read_ft df) =
     sort_key (\<lambda>(c, f). (cell_rank c, cell_rank f))
       (remdups (map (\<lambda>r. (read_vc (voting_constituency r), read_ft (fraud_type r)))
                   (complete_suspicious_rows read_vc read_ft df)))"
  by (simp add: detailed_summary_def groupby_size_def complete_suspicious_rows_def comp_def Let_def)

lemma map_of_detailed_summary:
  "map_of (detailed_summary read_vc read_ft df) (c, f) =
     (if (c, f) \<in> (\<lambda>r. (read_vc (voting_constituency r), read_ft (fraud_type r)))
                     ` set (complete_suspicious_rows read_vc read_ft df)
      then Some (length (filter (\<lambda>r. read_vc (voting_constituency r) = c \<and> read_ft (fraud_type r) = f)
                           (complete_suspicious_rows read_vc read_ft df)))
      else None)"
  by (simp add: detailed_summary_def groupby_size_def complete_suspicious_rows_def Let_def
      map_of_keyed)

lemma detailed_summary_cell:
  "(case map_of (detailed_summary read_vc read_ft df) (c, f) of None \<Rightarrow> 0 | Some n \<Rightarrow> int n) =
     int (length (filter (\<lambda>r. read_vc (voting_constituency r) = c \<and> read_ft (fraud_type r) = f)
                    (complete_suspicious_rows read_vc read_ft df)))"
proof -
  have "length (filter (\<lambda>r. read_vc (voting_constituency r) = c \<and> read_ft (fraud_type r) = f)
                  (complete_suspicious_rows read_vc read_ft df)) = 0"
    if "(c, f) \<notin> (\<lambda>r. (read_vc (voting_constituency r), read_ft (fraud_type r)))
                     ` set (complete_suspicious_rows read_vc read_ft df)"
    using that by (auto simp: filter_empty_conv)
  then show ?thesis
    by (simp add: map_of_detailed_summary)
qed

lemma pivot_detailed_summary:
  "pivot (detailed_summary read_vc read_ft df) =
     Inr \<lparr>pf_index = sort_key cell_rank (remdups (map (fst \<circ> fst) (detailed_summary read_vc read_ft df))),
          pf_columns = sort_key cell_rank (remdups (map (snd \<circ> fst) (detailed_summary read_vc read_ft df))),
          pf_values =
            map (\<lambda>c. map (\<lambda>f. map_of (detailed_summary read_vc read_ft df) (c, f))
                         (sort_key cell_rank (remdups (map (snd \<circ> fst) (detailed_summary read_vc read_ft df)))))
                (sort_key cell_rank (remdups (map (fst \<circ> fst) (detailed_summary read_vc read_ft df))))\<rparr>"
proof -
  have "distinct (map fst (detailed_summary read_vc read_ft df))"
    by (simp add: detailed_summary_keys)
  then show ?thesis
    by (simp add: pivot_def Let_def)
qed

lemma detailed_summary_index_set:
  "set (map (fst \<circ> fst) (detailed_summary read_vc read_ft df)) =
     (\<lambda>r. read_vc (voting_constituency r)) ` set (complete_suspicious_rows read_vc read_ft df)"
proof -
  have "set (map (fst \<circ> fst) (detailed_summary read_vc read_ft df)) =
        fst ` set (map fst (detailed_summary read_vc read_ft df))"
    by (simp add: image_comp)
  also have "\<dots> = (\<lambda>r. read_vc (voting_constituency r)) ` set (complete_suspicious_rows read_vc read_ft df)"
    unfolding detailed_summary_keys by (force simp: image_comp)
  finally show ?thesis .
qed

lemma detailed_summary_columns_set:
  "set (map (snd \<circ> fst) (detailed_summary read_vc read_ft df)) =
     (\<lambda>r. read_ft (fraud_type r)) ` set (complete_suspicious_rows read_vc read_ft df)"
proof -
  have "set (map (snd \<circ> fst) (detailed_summary read_vc read_ft df)) =
        snd ` set (map fst (detailed_summary read_vc read_ft df))"
    by (simp add: image_comp)
  also have "\<dots> = (\<lambda>r. read_ft (fraud_type r)) ` set (complete_suspicious_rows read_vc read_ft df)"
    unfolding detailed_summary_keys by (force simp: image_comp)
  finally show ?thesis .
qed

lemma pivot_table_examples:
  "pivot_table object_column object_column
     [legitimate_row, double_row_x, double_row_y, double_row_y, other_row, theft_row, cross_row] =
     Some (Inr \<lparr>pf_index = [Text ''X'', Text ''Y'', Text ''Z''],
                 pf_columns = [Text ''cross_constituency_voting'', Text ''double_voting'',
                               Text ''impersonation'', Text ''same_constituency_identity_theft''],
                 pf_values = [[0, 1, 0, 0], [1, 2, 0, 1], [0, 0, 1, 0]]\<rparr>)"
  "pivot_table int64_column object_column [numbered_row_10, numbered_row_9] =
     Some (Inr \<lparr>pf_index = [Number 9, Number 10], pf_columns = [Text ''double_voting''],
                 pf_values = [[1], [1]]\<rparr>)"
  by code_simp+

text \<open>
  Claim C7, as stated, says that for every table the cells of the pivot table sum to
  the number of suspicious rows. The grouping of line 188 leaves out every row whose
  voting constituency or fraud type is missing, so the claim fails on a table with two
  suspicious rows of which one has an empty voting constituency cell: the pivot table
  has the single cell 1.
\<close>

theorem pivot_total_missing_key_counterexample:
  "pivot_table object_column object_column [double_row_x, blank_constituency_row] =
     Some (Inr \<lparr>pf_index = [Text ''X''], pf_columns = [Text ''double_voting''],
                 pf_values = [[1]]\<rparr>)
   \<and> pivot_total \<lparr>pf_index = [Text ''X''], pf_columns = [Text ''double_voting''],
                   pf_values = [[1]]\<rparr> = 1
   \<and> length (filter is_suspicious [double_row_x, blank_constituency_row]) = 2"
  by code_simp

text \<open>
  Claim C7, amended: when the table has suspicious rows, the pivot table is built
  without an exception from the suspicious rows whose voting constituency and fraud
  type are both present; its row labels are the voting constituencies and its column
  labels the fraud types of those rows, each sorted and without repetition; the cell of
  a constituency and a fraud type is the number of those rows with that pair, an
  integer that is zero for a pair no row has; the sum of all cells is the number of
  those rows, and so the number of rows whose flag is set whenever no suspicious row
  has a missing voting constituency or fraud type. When no row is suspicious the
  script builds no pivot table and shows a notice instead.
\<close>

theorem pivot_table_counts_complete_rows:
  "(suspicious_df df \<noteq> [] \<longrightarrow>
      (\<exists>p. pivot_table read_vc read_ft df = Some (Inr p)
         \<and> distinct (pf_index p) \<and> sorted (map cell_rank (pf_index p))
         \<and> set (pf_index p) =
             {read_vc (voting_constituency r) | r. r \<in> set (complete_suspicious_rows read_vc read_ft df)}
         \<and> distinct (pf_columns p) \<and> sorted (map cell_rank (pf_columns p))
         \<and> set (pf_columns p) =
             {read_ft (fraud_type r) | r. r \<in> set (complete_suspicious_rows read_vc read_ft df)}
         \<and> pf_values p =
             map (\<lambda>c. map (\<lambda>f. int (length (filter (\<lambda>r. read_vc (voting_constituency r) = c
                                                         \<and> read_ft (fraud_type r) = f)
                                               (complete_suspicious_rows read_vc read_ft df))))
                          (pf_columns p))
                 (pf_index p)
         \<and> pivot_total p = int (length (complete_suspicious_rows read_vc read_ft df))
         \<and> (complete_suspicious_rows read_vc read_ft df = suspicious_df df \<longrightarrow>
              pivot_total p = int (length (filter is_suspicious df)))))
   \<and> (suspicious_df df = [] \<longrightarrow> pivot_table read_vc read_ft df = None)"
proof (intro conjI impI)
  assume ne: "suspicious_df df \<noteq> []"
  let ?rows = "complete_suspicious_rows read_vc read_ft df"
  let ?entries = "detailed_summary read_vc read_ft df"
  define idx where "idx = sort_key cell_rank (remdups (map (fst \<circ> fst) ?entries))"
  define cols where "cols = sort_key cell_rank (remdups (map (snd \<circ> fst) ?entries))"
  let ?count = "\<lambda>c f. length (filter (\<lambda>r. read_vc (voting_constituency r) = c
                                          \<and> read_ft (fraud_type r) = f) ?rows)"
  define p where "p = \<lparr>pf_index = idx, pf_columns = cols,
    pf_values = map (\<lambda>c. map (\<lambda>f. int (?count c f)) cols) idx\<rparr>"
  have built: "pivot_table read_vc read_ft df = Some (Inr p)"
    using ne by (simp add: pivot_table_def pivot_detailed_summary fillna_astype_int_def p_def
        idx_def cols_def comp_def detailed_summary_cell)
  have idx_set: "set idx = (\<lambda>r. read_vc (voting_constituency r)) ` set ?rows"
    unfolding idx_def using detailed_summary_index_set [of read_vc read_ft df]
    by (simp only: set_sort set_remdups)
  have cols_set: "set cols = (\<lambda>r. read_ft (fraud_type r)) ` set ?rows"
    unfolding cols_def using detailed_summary_columns_set [of read_vc read_ft df]
    by (simp only: set_sort set_remdups)
  have idx_sorted: "distinct idx" "sorted (map cell_rank idx)"
    by (simp_all add: idx_def)
  have cols_sorted: "distinct cols" "sorted (map cell_rank cols)"
    by (simp_all add: cols_def)
  have inner: "(\<Sum>f\<leftarrow>cols. ?count c f) =
               length (filter (\<lambda>r. read_vc (voting_constituency r) = c) ?rows)" for c
  proof -
    have "(\<Sum>f\<leftarrow>cols. length (filter (\<lambda>r. read_ft (fraud_type r) = f
                                           \<and> read_vc (voting_constituency r) = c) ?rows)) =
          length (filter (\<lambda>r. read_vc (voting_constituency r) = c) ?rows)"
      using cols_sorted(1) cols_set by (intro sum_list_count_by_key) simp_all
    then show ?thesis by (simp add: conj_commute)
  qed
  have outer: "(\<Sum>c\<leftarrow>idx. length (filter (\<lambda>r. read_vc (voting_constituency r) = c) ?rows)) =
               length ?rows"
    using sum_list_count_by_key [of idx "\<lambda>r. read_vc (voting_constituency r)" ?rows "\<lambda>r. True"]
      idx_sorted(1) idx_set by simp
  have "pivot_total p = (\<Sum>c\<leftarrow>idx. \<Sum>f\<leftarrow>cols. int (?count c f))"
    by (simp add: pivot_total_def p_def comp_def)
  also have "\<dots> = int (\<Sum>c\<leftarrow>idx. \<Sum>f\<leftarrow>cols. ?count c f)"
    by (simp add: comp_def flip: sum_list_of_nat)
  also have "\<dots> = int (length ?rows)"
    by (simp only: inner outer)
  finally have total: "pivot_total p = int (length ?rows)" .
  have all: "pivot_total p = int (length (filter is_suspicious df))" if "?rows = suspicious_df df"
    using total that by (simp add: suspicious_df_def)
  have labels: "distinct (pf_index p)" "sorted (map cell_rank (pf_index p))"
    "set (pf_index p) = {read_vc (voting_constituency r) | r. r \<in> set ?rows}"
    "distinct (pf_columns p)" "sorted (map cell_rank (pf_columns p))"
    "set (pf_columns p) = {read_ft (fraud_type r) | r. r \<in> set ?rows}"
    using idx_set cols_set idx_sorted cols_sorted by (auto simp: p_def)
  have vals: "pf_values p = map (\<lambda>c. map (\<lambda>f. int (?count c f)) (pf_columns p)) (pf_index p)"
    by (simp add: p_def)
  show "\<exists>p. pivot_table read_vc read_ft df = Some (Inr p)
         \<and> distinct (pf_index p) \<and> sorted (map cell_rank (pf_index p))
         \<and> set (pf_index p) =
             {read_vc (voting_constituency r) | r. r \<in> set (complete_suspicious_rows read_vc read_ft df)}
         \<and> distinct (pf_columns p) \<and> sorted (map cell_rank (pf_columns p))
         \<and> set (pf_columns p) =
             {read_ft (fraud_type r) | r. r \<in> set (complete_suspicious_rows read_vc read_ft df)}
         \<and> pf_values p =
             map (\<lambda>c. map (\<lambda>f. int (length (filter (\<lambda>r. read_vc (voting_constituency r) = c
                                                         \<and> read_ft (fraud_type r) = f)
                                               (complete_suspicious_rows read_vc read_ft df))))
                          (pf_columns p))
                 (pf_index p)
         \<and> pivot_total p = int (length (complete_suspicious_rows read_vc read_ft df))
         \<and> (complete_suspicious_rows read_vc read_ft df = suspicious_df df \<longrightarrow>
              pivot_total p = int (length (filter is_suspicious df)))"
    using built labels vals total all by (intro exI [of _ p] conjI impI)
next
  assume "suspicious_df df = []"
  then show "pivot_table read_vc read_ft df = None" by (simp add: pivot_table_def)
qed

theorem pivot_table_counts_complete_rows_witness:
  "(\<exists>p. pivot_table object_column object_column
           [legitimate_row, double_row_x, double_row_y, double_row_y, other_row, theft_row,
            cross_row] = Some (Inr p) \<and> pivot_total p = 6)
   \<and> (\<exists>p. pivot_table object_column object_column [double_row_x, blank_constituency_row] =
             Some (Inr p) \<and> pivot_total p = 1)
   \<and> pivot_table object_column object_column [legitimate_row] = None"
proof -
  let ?full = "[legitimate_row, double_row_x, double_row_y, double_row_y, other_row, theft_row,
            cross_row]"
  let ?blank = "[double_row_x, blank_constituency_row]"
  have full: "suspicious_df ?full \<noteq> []"
    "length (complete_suspicious_rows object_column object_column ?full) = 6"
    by code_simp+
  have blank: "suspicious_df ?blank \<noteq> []"
    "length (complete_suspicious_rows object_column object_column ?blank) = 1"
    by code_simp+
  have none: "suspicious_df [legitimate_row] = []"
    by code_simp
  show ?thesis
    using pivot_table_counts_complete_rows [of ?full object_column object_column] pivot_table_counts_complete_rows [of ?blank object_column object_column]
      pivot_table_counts_complete_rows [of "[legitimate_row]" object_column object_column] full blank none
    by (simp only: list.size) auto
qed

subsection \<open>Double voting summary\<close>

text \<open>
  Claim C8 asks that the summary report, for each double-voting voter, the number of
  the voter's rows and the voter's voting constituencies joined into a list. Line 239
  passes the constituency values to \<^verbatim>\<open>str.join\<close> as \<^verbatim>\<open>read_csv\<close> left them,
  without converting them to strings: on a table whose constituencies are numbers, and
  on a table where a row of the voter has an empty constituency cell, the join raises
  \<^verbatim>\<open>TypeError\<close>, nothing catches it, and no summary is shown.
\<close>

theorem double_summary_join_raises:
  "double_summary int64_column [numbered_row_9, numbered_row_10] = Some (Inl TypeError)
   \<and> double_summary object_column [double_row_x, blank_constituency_row] = Some (Inl TypeError)"
  by code_simp

text \<open>
  Where every voting constituency of the table is a string the summary is what the
  claim says: one entry per double-voting voter, with the number of all rows of the
  voter and the distinct voting constituencies of those rows joined with a comma and a
  space.
\<close>

lemma double_summary_example:
  "double_summary object_column [legitimate_row, double_row_x, double_row_y, double_row_y] =
     Some (Inr [\<lparr>Voter_ID = ''B'', Number_of_Votes = 3, Constituencies = ''X, Y''\<rparr>])"
  by code_simp

lemma str_items_texts: "list_all is_text items \<Longrightarrow> str_items items = Some (map text_of items)"
  by (induction items rule: str_items.induct) (simp_all add: is_text_def text_of_def)

lemma py_join_texts: "list_all is_text items \<Longrightarrow> py_join sep items = Inr (join sep (map text_of items))"
  by (simp add: py_join_def str_items_texts)

lemma list_all_unique: "list_all P (unique xs) = list_all P xs"
  by (simp add: list_all_iff set_unique)

lemma double_summary_loop_texts:
  assumes "list_all (\<lambda>r. is_text (read_vc (voting_constituency r))) df"
  shows "double_summary_loop read_vc df voters acc =
     Inr (acc @ map (\<lambda>voter.
        \<lparr>Voter_ID = voter,
         Number_of_Votes = length (filter (\<lambda>r. voter_id r = voter) df),
         Constituencies =
           join '', '' (map text_of (unique (map (\<lambda>r. read_vc (voting_constituency r))
                                              (filter (\<lambda>r. voter_id r = voter) df))))\<rparr>)
       voters)"
proof (induction voters arbitrary: acc)
  case Nil
  then show ?case by simp
next
  case (Cons voter rest)
  have "list_all is_text (unique (map (\<lambda>r. read_vc (voting_constituency r))
                                    (filter (\<lambda>r. voter_id r = voter) df)))"
    using assms by (auto simp: list_all_iff set_unique)
  then show ?case
    by (simp add: Let_def py_join_texts Cons.IH)
qed

lemma in_double_voters:
  "v \<in> set (double_voters df) \<longleftrightarrow>
     (\<exists>r \<in> set df. voter_id r = v \<and> fraud_type r = ''double_voting'')"
  by (auto simp: double_voters_def set_unique)

lemma double_summary_of_text_column:
  assumes texts: "list_all (\<lambda>r. is_text (read_vc (voting_constituency r))) df"
    and r: "r \<in> set df" "fraud_type r = ''double_voting''"
  shows "\<exists>summary e cs.
           double_summary read_vc df = Some (Inr summary)
         \<and> map Voter_ID summary = double_voters df
         \<and> e \<in> set summary \<and> Voter_ID e = voter_id r
         \<and> (\<forall>e' \<in> set summary. Voter_ID e' = voter_id r \<longrightarrow> e' = e)
         \<and> Number_of_Votes e = length (filter (\<lambda>r'. voter_id r' = voter_id r) df)
         \<and> Constituencies e = join '', '' cs
         \<and> distinct cs
         \<and> Text ` set cs = {read_vc (voting_constituency r') | r'. r' \<in> set df \<and> voter_id r' = voter_id r}"
proof -
  let ?cells = "\<lambda>voter. unique (map (\<lambda>r. read_vc (voting_constituency r))
                                   (filter (\<lambda>r. voter_id r = voter) df))"
  let ?entry = "\<lambda>voter.
        \<lparr>Voter_ID = voter,
         Number_of_Votes = length (filter (\<lambda>r. voter_id r = voter) df),
         Constituencies = join '', '' (map text_of (?cells voter))\<rparr>"
  let ?summary = "map ?entry (double_voters df)"
  let ?cs = "map text_of (?cells (voter_id r))"
  have mem: "voter_id r \<in> set (double_voters df)"
    using r unfolding in_double_voters by auto
  then have "double_voters df \<noteq> []" by auto
  then have built: "double_summary read_vc df = Some (Inr ?summary)"
    by (simp add: double_summary_def double_summary_loop_texts [OF texts])
  have ids: "map Voter_ID ?summary = double_voters df"
    by (simp add: comp_def)
  have e_in: "?entry (voter_id r) \<in> set ?summary"
    using mem by auto
  have only: "\<forall>e' \<in> set ?summary. Voter_ID e' = voter_id r \<longrightarrow> e' = ?entry (voter_id r)"
    by auto
  have all_text: "list_all is_text (?cells (voter_id r))"
    using texts by (auto simp: list_all_iff set_unique)
  then have retext: "map Text ?cs = ?cells (voter_id r)"
    by (auto simp: list_all_iff is_text_def text_of_def map_idI split: cell.splits)
  have "inj_on text_of (set (?cells (voter_id r)))"
    using all_text by (auto simp: inj_on_def list_all_iff is_text_def text_of_def split: cell.splits)
  then have dist: "distinct ?cs"
    by (simp add: distinct_map distinct_unique)
  have "Text ` set ?cs = set (map Text ?cs)" by (simp only: set_map)
  also have "\<dots> = set (?cells (voter_id r))" by (simp only: retext)
  also have "\<dots> = {read_vc (voting_constituency r') | r'. r' \<in> set df \<and> voter_id r' = voter_id r}"
    by (auto simp: set_unique)
  finally have cs_set: "Text ` set ?cs =
      {read_vc (voting_constituency r') | r'. r' \<in> set df \<and> voter_id r' = voter_id r}" .
  show ?thesis
    apply (rule exI [of _ ?summary])
    apply (rule exI [of _ "?entry (voter_id r)"])
    apply (rule exI [of _ ?cs])
    using built ids e_in only dist cs_set
    apply (intro conjI)
            apply simp_all
    done
qed

subsection \<open>Face images\<close>

lemma gallery_body_eq: "gallery_body readable i img_path = Inr (snd (gallery_cell readable i img_path))"
  by (simp add: gallery_body_def st_image_def st_error_def gallery_cell_def)

lemma gallery_loop_eq:
  "gallery_loop readable i paths page =
     Inr (page @ map (\<lambda>(k, p). gallery_cell readable k p) (zip [i..<i + length paths] paths))"
proof (induction paths arbitrary: i page)
  case Nil
  then show ?case by simp
next
  case (Cons p paths)
  have "[i..<i + length (p # paths)] = i # [Suc i..<Suc i + length paths]"
    by (simp add: upt_rec)
  then show ?case
    by (simp add: gallery_body_eq Cons.IH gallery_cell_def)
qed

lemma face_images_example:
  "face_images (\<lambda>path. path \<noteq> ''img/b2.jpg'') [double_row_x, double_row_y, double_row_y, double_row_x] =
     Inr [(0, Image ''img/b1.jpg'' 150 ''Image 1''),
          (1, ErrorBox ''Cannot load image: img/b2.jpg''),
          (2, ErrorBox ''Cannot load image: img/b2.jpg''),
          (3, Image ''img/b1.jpg'' 150 ''Image 4'')]"
  by code_simp

lemma string_of_nat_four: "string_of_nat 4 = ''4''"
  by code_simp

text \<open>
  Claim C9: rendering the gallery of a voter's rows always completes (no exception
  leaves the loop, so the statements after it run), and it shows one element per row,
  in order, in column \<open>i mod 4\<close>: the image with its caption when the path can be
  loaded, and otherwise an error box that names the path. A path that cannot be loaded
  changes nothing for the other images.
\<close>

theorem face_images_tolerates_unreadable:
  "\<exists>shown. face_images readable voter_data = Inr shown
     \<and> length shown = length voter_data
     \<and> (\<forall>i < length voter_data.
          (readable (image_path (voter_data ! i)) \<longrightarrow>
             shown ! i = (i mod 4, Image (image_path (voter_data ! i)) 150
                                     (''Image '' @ string_of_nat (i + 1))))
        \<and> (\<not> readable (image_path (voter_data ! i)) \<longrightarrow>
             shown ! i = (i mod 4, ErrorBox (''Cannot load image: '' @ image_path (voter_data ! i)))))"
proof -
  let ?shown = "map (\<lambda>(k, p). gallery_cell readable k p)
                  (zip [0..<length voter_data] (map image_path voter_data))"
  have "face_images readable voter_data = Inr ?shown"
    by (simp add: face_images_def gallery_loop_eq)
  moreover have "length ?shown = length voter_data" by simp
  moreover have "?shown ! i = gallery_cell readable i (image_path (voter_data ! i))"
    if "i < length voter_data" for i
    using that by simp
  ultimately show ?thesis
    by (intro exI [of _ ?shown]) (simp add: gallery_cell_def)
qed

theorem face_images_tolerates_unreadable_witness:
  "\<exists>shown. face_images (\<lambda>path. path \<noteq> ''img/b2.jpg'')
              [double_row_x, double_row_y, double_row_y, double_row_x] = Inr shown
     \<and> length shown = 4
     \<and> shown ! 1 = (1, ErrorBox ''Cannot load image: img/b2.jpg'')
     \<and> shown ! 3 = (3, Image ''img/b1.jpg'' 150 ''Image 4'')"
proof -
  let ?readable = "\<lambda>path. path \<noteq> ''img/b2.jpg''"
  let ?data = "[double_row_x, double_row_y, double_row_y, double_row_x]"
  obtain shown where built: "face_images ?readable ?data = Inr shown"
    and len: "length shown = length ?data"
    and cells: "\<forall>i < length ?data.
          (?readable (image_path (?data ! i)) \<longrightarrow>
             shown ! i = (i mod 4, Image (image_path (?data ! i)) 150
                                     (''Image '' @ string_of_nat (i + 1))))
        \<and> (\<not> ?readable (image_path (?data ! i)) \<longrightarrow>
             shown ! i = (i mod 4, ErrorBox (''Cannot load image: '' @ image_path (?data ! i))))"
    using face_images_tolerates_unreadable [of ?readable ?data] by blast
  have one: "shown ! 1 = (1, ErrorBox ''Cannot load image: img/b2.jpg'')"
    using cells [rule_format, of 1] by (simp add: double_row_y_def)
  have three: "shown ! 3 = (3, Image ''img/b1.jpg'' 150 ''Image 4'')"
    using cells [rule_format, of 3] by (simp add: double_row_x_def string_of_nat_four)
  show ?thesis
    using built len one three by simp
qed

end
